theory Spec2Isabelle
  imports Complex_Main "HOL-Library.Multiset" "HOL-Library.List_Lexorder"
begin

section \<open>Python values\<close>

text \<open>
  The cells of a dataset are the values of the data model: the null marker \<open>None\<close>,
  integers, floats, strings and lists of cells. A float \<open>PFloat q\<close> is the float whose value
  is the rational \<open>q\<close>; float arithmetic is taken exact (no rounding, no overflow, no NaN).
  Booleans, tuples and other Python objects are outside the model.
\<close>

datatype py = PNone | PInt int | PFloat rat | PStr string | PList "py list"

datatype error = IndexError | KeyError | TypeError | ValueError | ZeroDivisionError

text \<open>
  Python's \<open>==\<close> compares an int and a float by value (\<open>1 == 1.0\<close>), lists element by
  element, and values of different kinds as unequal. \<open>py_norm\<close> maps every number to the float
  of its value, so two values are \<open>==\<close> exactly when their images agree.
\<close>

fun py_norm :: "py \<Rightarrow> py" where
  "py_norm PNone = PNone"
| "py_norm (PInt i) = PFloat (of_int i)"
| "py_norm (PFloat q) = PFloat q"
| "py_norm (PStr s) = PStr s"
| "py_norm (PList xs) = PList (map py_norm xs)"

definition py_eq :: "py \<Rightarrow> py \<Rightarrow> bool" where
  "py_eq a b = (py_norm a = py_norm b)"

text \<open>\<open>hash(v)\<close> raises TypeError on a list; every other value of the model is hashable.\<close>

fun hashable :: "py \<Rightarrow> bool" where
  "hashable (PList xs) = False"
| "hashable v = True"

text \<open>\<open>isinstance(v, (list, tuple))\<close>\<close>

fun is_list :: "py \<Rightarrow> bool" where
  "is_list (PList xs) = True"
| "is_list v = False"

text \<open>\<open>value is None or value == ''\<close>, and the same test \<open>value in (None, '')\<close>.\<close>

definition is_missing :: "py \<Rightarrow> bool" where
  "is_missing v = (v = PNone \<or> v = PStr [])"

text \<open>The operator \<open>+\<close>: numbers add (a float as soon as one operand is a float), strings
  and lists concatenate, everything else raises TypeError.\<close>

fun py_add :: "py \<Rightarrow> py \<Rightarrow> error + py" where
  "py_add (PInt a) (PInt b) = Inr (PInt (a + b))"
| "py_add (PInt a) (PFloat b) = Inr (PFloat (of_int a + b))"
| "py_add (PFloat a) (PInt b) = Inr (PFloat (a + of_int b))"
| "py_add (PFloat a) (PFloat b) = Inr (PFloat (a + b))"
| "py_add (PStr a) (PStr b) = Inr (PStr (a @ b))"
| "py_add (PList a) (PList b) = Inr (PList (a @ b))"
| "py_add a b = Inl TypeError"

text \<open>\<open>sum(values)\<close>: the running total starts at the int \<open>0\<close>.\<close>

fun sum_from :: "py \<Rightarrow> py list \<Rightarrow> error + py" where
  "sum_from acc [] = Inr acc"
| "sum_from acc (v # vs) = (case py_add acc v of Inl e \<Rightarrow> Inl e | Inr acc' \<Rightarrow> sum_from acc' vs)"

definition py_sum :: "py list \<Rightarrow> error + py" where
  "py_sum values = sum_from (PInt 0) values"

text \<open>\<open>total / len(values)\<close>: true division of a number by a length; the result is a float.\<close>

fun py_truediv :: "py \<Rightarrow> nat \<Rightarrow> error + py" where
  "py_truediv (PInt a) n = (if n = 0 then Inl ZeroDivisionError else Inr (PFloat (of_int a / of_nat n)))"
| "py_truediv (PFloat a) n = (if n = 0 then Inl ZeroDivisionError else Inr (PFloat (a / of_nat n)))"
| "py_truediv v n = Inl TypeError"

text \<open>Strings are ordered by code point, position by position.\<close>

fun str_lt :: "string \<Rightarrow> string \<Rightarrow> bool" where
  "str_lt [] [] = False"
| "str_lt [] (d # t) = True"
| "str_lt (c # s) [] = False"
| "str_lt (c # s) (d # t) =
     (if c = d then str_lt s t else (of_char c :: nat) < of_char d)"

text \<open>The operator \<open><\<close>: numbers by value, strings by code point, lists by their first
  pair of unequal elements (or by length when one is a prefix of the other); None and values
  of different kinds are not comparable.\<close>

fun py_lt :: "py \<Rightarrow> py \<Rightarrow> error + bool"
  and list_lt :: "py list \<Rightarrow> py list \<Rightarrow> error + bool" where
  "py_lt (PInt a) (PInt b) = Inr (a < b)"
| "py_lt (PInt a) (PFloat b) = Inr (of_int a < b)"
| "py_lt (PFloat a) (PInt b) = Inr (a < of_int b)"
| "py_lt (PFloat a) (PFloat b) = Inr (a < b)"
| "py_lt (PStr a) (PStr b) = Inr (str_lt a b)"
| "py_lt (PList xs) (PList ys) = list_lt xs ys"
| "py_lt a b = Inl TypeError"
| "list_lt [] [] = Inr False"
| "list_lt [] (y # ys) = Inr True"
| "list_lt (x # xs) [] = Inr False"
| "list_lt (x # xs) (y # ys) = (if py_eq x y then list_lt xs ys else py_lt x y)"

section \<open>Dictionaries\<close>

text \<open>
  A dict is the list of its items in insertion order. \<open>d[k] = v\<close> replaces the value of a key
  that is present, in place, and appends a new key at the end. A row is a dict from column
  names to cells; a dataset is a list of rows.
\<close>

type_synonym row = "(string \<times> py) list"
type_synonym dataset = "row list"

fun dict_set :: "'k \<Rightarrow> 'v \<Rightarrow> ('k \<times> 'v) list \<Rightarrow> ('k \<times> 'v) list" where
  "dict_set k v [] = [(k, v)]"
| "dict_set k v ((k', v') # d) = (if k' = k then (k', v) # d else (k', v') # dict_set k v d)"

text \<open>
  A dict keyed by cells (\<open>grouped_data\<close>, \<open>pivoted_data\<close>) finds a key by \<open>==\<close>; assigning
  to a key that is present keeps the key object stored first.
\<close>

fun pdict_get :: "py \<Rightarrow> (py \<times> 'v) list \<Rightarrow> 'v option" where
  "pdict_get k [] = None"
| "pdict_get k ((k', v') # d) = (if py_eq k' k then Some v' else pdict_get k d)"

fun pdict_set :: "py \<Rightarrow> 'v \<Rightarrow> (py \<times> 'v) list \<Rightarrow> (py \<times> 'v) list" where
  "pdict_set k v [] = [(k, v)]"
| "pdict_set k v ((k', v') # d) = (if py_eq k' k then (k', v) # d else (k', v') # pdict_set k v d)"

section \<open>The sampler\<close>

text \<open>
  \<open>dataSampling\<close> pops from a list, so list objects live in a store: a list object is its
  index in the store, \<open>dataset.copy()\<close> allocates a new object at the end of the store.
  The clock value \<open>int(time.time())\<close> is the parameter \<open>seed\<close>; \<open>fraction\<close> is a
  rational, and \<open>int(x)\<close> truncates towards zero.
\<close>

definition py_int :: "rat \<Rightarrow> int" where
  "py_int x = (if 0 \<le> x then \<lfloor>x\<rfloor> else \<lceil>x\<rceil>)"

definition pop :: "nat \<Rightarrow> 'a list \<Rightarrow> 'a list" where
  "pop index xs = take index xs @ drop (Suc index) xs"

fun sampling_loop :: "nat \<Rightarrow> int \<Rightarrow> nat \<Rightarrow> 'a list list \<Rightarrow> 'a list \<Rightarrow> 'a list list \<times> (error + 'a list)" where
  "sampling_loop 0 seed dataset_copy store sampled_data = (store, Inr sampled_data)"
| "sampling_loop (Suc k) seed dataset_copy store sampled_data =
     (if length (store ! dataset_copy) = 0 then (store, Inl ZeroDivisionError)
      else let index = nat (seed mod int (length (store ! dataset_copy)))
           in sampling_loop k (seed + 1) dataset_copy
                (store[dataset_copy := pop index (store ! dataset_copy)])
                (sampled_data @ [store ! dataset_copy ! index]))"

definition dataSampling :: "'a list list \<Rightarrow> nat \<Rightarrow> rat \<Rightarrow> int \<Rightarrow> 'a list list \<times> (error + 'a list)" where
  "dataSampling store dataset fraction seed =
     (let store1 = store @ [store ! dataset];
          dataset_copy = length store;
          total_size = length (store1 ! dataset_copy);
          sample_size = py_int (of_nat total_size * fraction)
      in sampling_loop (nat sample_size) seed dataset_copy store1 [])"

section \<open>The missing-value imputer\<close>

text \<open>\<open>[r[column] for r in dataset if column in r and r[column] not in (None, '')]\<close>\<close>

fun column_values :: "dataset \<Rightarrow> string \<Rightarrow> py list" where
  "column_values [] column = []"
| "column_values (r # dataset) column =
     (case map_of r column of
        None \<Rightarrow> column_values dataset column
      | Some v \<Rightarrow> if is_missing v then column_values dataset column
                 else v # column_values dataset column)"

text \<open>
  \<open>sorted(values)\<close> is a stable sort by \<open><\<close>, and a comparison that raises ends it. The
  model is the stable insertion sort: it is Python's result on values that \<open><\<close> orders
  (numbers, or strings) and on fewer than two values, and it raises TypeError like Python
  when numbers and strings are mixed. On lists of lists, where a sort can raise or not by the
  pairs it happens to compare, it raises as soon as one of its own comparisons does.
\<close>

fun py_insort :: "py \<Rightarrow> py list \<Rightarrow> error + py list" where
  "py_insort x [] = Inr [x]"
| "py_insort x (y # ys) =
     (case py_lt y x of
        Inl e \<Rightarrow> Inl e
      | Inr True \<Rightarrow> (case py_insort x ys of Inl e \<Rightarrow> Inl e | Inr zs \<Rightarrow> Inr (y # zs))
      | Inr False \<Rightarrow> Inr (x # y # ys))"

fun py_sorted :: "py list \<Rightarrow> error + py list" where
  "py_sorted [] = Inr []"
| "py_sorted (x # xs) = (case py_sorted xs of Inl e \<Rightarrow> Inl e | Inr ys \<Rightarrow> py_insort x ys)"

text \<open>
  \<open>max(set(values), key=values.count)\<close>: building the set hashes every value;
  \<open>values.count\<close> counts by \<open>==\<close>; \<open>max\<close> keeps the first element of greatest count in
  the iteration order of the set. That order is CPython's, not the program's: it is the
  parameter \<open>set_iter\<close>, which lists the elements of \<open>set(values)\<close>.
\<close>

definition py_count :: "py list \<Rightarrow> py \<Rightarrow> nat" where
  "py_count values v = length (filter (\<lambda>x. py_eq x v) values)"

fun max_by_key :: "('a \<Rightarrow> nat) \<Rightarrow> 'a \<Rightarrow> 'a list \<Rightarrow> 'a" where
  "max_by_key f best [] = best"
| "max_by_key f best (x # xs) = max_by_key f (if f best < f x then x else best) xs"

definition most_common :: "(py list \<Rightarrow> py list) \<Rightarrow> py list \<Rightarrow> error + py" where
  "most_common set_iter values =
     (if \<exists>v \<in> set values. \<not> hashable v then Inl TypeError
      else case set_iter values of
             [] \<Rightarrow> Inl ValueError
           | x # xs \<Rightarrow> Inr (max_by_key (py_count values) x xs))"

text \<open>
  The branch of \<open>dataCleaning\<close> taken for a missing cell of \<open>column\<close>: \<open>Some v\<close> is the
  assignment \<open>cleaned_row[column] = v\<close>, \<open>None\<close> is no assignment (\<open>'remove'\<close> runs
  \<open>continue\<close>, and an unknown strategy matches no branch).
\<close>

definition impute :: "(py list \<Rightarrow> py list) \<Rightarrow> dataset \<Rightarrow> string \<Rightarrow> string \<Rightarrow> error + py option" where
  "impute set_iter dataset missing_value_strategy column =
     (if missing_value_strategy = ''mean'' then
        (let values = column_values dataset column
         in if values = [] then Inr (Some PNone)
            else case py_sum values of
                   Inl e \<Rightarrow> Inl e
                 | Inr values_sum \<Rightarrow> (case py_truediv values_sum (length values) of
                                   Inl e \<Rightarrow> Inl e | Inr m \<Rightarrow> Inr (Some m)))
      else if missing_value_strategy = ''median'' then
        (case py_sorted (column_values dataset column) of
           Inl e \<Rightarrow> Inl e
         | Inr values \<Rightarrow> if values = [] then Inr (Some PNone)
                         else Inr (Some (values ! (length values div 2))))
      else if missing_value_strategy = ''mode'' then
        (let values = column_values dataset column
         in if values = [] then Inr (Some PNone)
            else case most_common set_iter values of
                   Inl e \<Rightarrow> Inl e | Inr m \<Rightarrow> Inr (Some m))
      else Inr None)"

text \<open>The loop \<open>for column in columns\<close> over one row; \<open>cleaned_row\<close> is the row built so far.\<close>

fun clean_row :: "(py list \<Rightarrow> py list) \<Rightarrow> dataset \<Rightarrow> string \<Rightarrow> row \<Rightarrow> string list \<Rightarrow> row \<Rightarrow> error + row" where
  "clean_row set_iter dataset strategy row [] cleaned_row = Inr cleaned_row"
| "clean_row set_iter dataset strategy row (column # columns) cleaned_row =
     (case map_of row column of
        None \<Rightarrow> clean_row set_iter dataset strategy row columns cleaned_row
      | Some v \<Rightarrow>
          if is_missing v then
            (case impute set_iter dataset strategy column of
               Inl e \<Rightarrow> Inl e
             | Inr None \<Rightarrow> clean_row set_iter dataset strategy row columns cleaned_row
             | Inr (Some m) \<Rightarrow>
                 clean_row set_iter dataset strategy row columns (dict_set column m cleaned_row))
          else clean_row set_iter dataset strategy row columns (dict_set column v cleaned_row))"

text \<open>The loop \<open>for i, row in enumerate(dataset)\<close>; every row is appended to \<open>cleaned_data\<close>.\<close>

fun clean_rows :: "(py list \<Rightarrow> py list) \<Rightarrow> dataset \<Rightarrow> string \<Rightarrow> string list \<Rightarrow> dataset \<Rightarrow> dataset \<Rightarrow> error + dataset" where
  "clean_rows set_iter dataset strategy columns [] cleaned_data = Inr cleaned_data"
| "clean_rows set_iter dataset strategy columns (row # rows) cleaned_data =
     (case clean_row set_iter dataset strategy row columns [] of
        Inl e \<Rightarrow> Inl e
      | Inr cleaned_row \<Rightarrow>
          clean_rows set_iter dataset strategy columns rows (cleaned_data @ [cleaned_row]))"

definition dataCleaning :: "(py list \<Rightarrow> py list) \<Rightarrow> dataset \<Rightarrow> string \<Rightarrow> error + dataset" where
  "dataCleaning set_iter dataset missing_value_strategy =
     (case dataset of
        [] \<Rightarrow> Inl IndexError
      | row0 # _ \<Rightarrow> clean_rows set_iter dataset missing_value_strategy (map fst row0) dataset [])"

section \<open>The group-by aggregator\<close>

text \<open>
  \<open>dataGroupBy\<close> assigns to cells of the rows it reads, so it returns the dataset as it is
  after the call beside its result. The rows of a dataset are taken to be different dict
  objects.

  \<open>collect_columns\<close> is the loop over \<open>aggregation_functions.items()\<close> for one row;
  \<open>group_data\<close> is \<open>grouped_data[group_key]\<close>.
\<close>

fun collect_columns :: "(string \<times> string) list \<Rightarrow> row \<Rightarrow> (string \<times> py list) list \<Rightarrow> row \<times> (string \<times> py list) list" where
  "collect_columns [] row group_data = (row, group_data)"
| "collect_columns ((column, agg_function) # items) row group_data =
     (case map_of row column of
        None \<Rightarrow> collect_columns items row group_data
      | Some cell \<Rightarrow>
          let group_data1 = (case map_of group_data column of
                               None \<Rightarrow> dict_set column [] group_data
                             | Some acc \<Rightarrow> group_data);
              row1 = (if is_list cell then row else dict_set column (PList [cell]) row);
              values = filter (\<lambda>v. v \<noteq> PNone) (case cell of PList xs \<Rightarrow> xs | _ \<Rightarrow> [cell]);
              group_data2 = (if values \<noteq> [] then
                               dict_set column
                                 ((case map_of group_data1 column of None \<Rightarrow> [] | Some acc \<Rightarrow> acc) @ values)
                                 group_data1
                             else group_data1)
          in collect_columns items row1 group_data2)"

text \<open>The first loop \<open>for row in dataset\<close>: the rows after their visit, and \<open>grouped_data\<close>.\<close>

fun collect_rows :: "string \<Rightarrow> (string \<times> string) list \<Rightarrow> dataset \<Rightarrow> (py \<times> (string \<times> py list) list) list \<Rightarrow>
    dataset \<times> (error + (py \<times> (string \<times> py list) list) list)" where
  "collect_rows groupby_column aggregation_functions [] grouped_data = ([], Inr grouped_data)"
| "collect_rows groupby_column aggregation_functions (row # rows) grouped_data =
     (case map_of row groupby_column of
        None \<Rightarrow> (row # rows, Inl KeyError)
      | Some group_key \<Rightarrow>
          if \<not> hashable group_key then (row # rows, Inl TypeError)
          else
            let group_data = (case pdict_get group_key grouped_data of None \<Rightarrow> [] | Some d \<Rightarrow> d);
                (row', group_data') = collect_columns aggregation_functions row group_data;
                (rows', result) = collect_rows groupby_column aggregation_functions rows
                                    (pdict_set group_key group_data' grouped_data)
            in (row' # rows', result))"

text \<open>\<open>max(values)\<close>: ValueError on no values; a later value replaces the maximum when it
  is greater.\<close>

fun max_from :: "py \<Rightarrow> py list \<Rightarrow> error + py" where
  "max_from m [] = Inr m"
| "max_from m (v # vs) =
     (case py_lt m v of Inl e \<Rightarrow> Inl e | Inr b \<Rightarrow> max_from (if b then v else m) vs)"

fun py_max :: "py list \<Rightarrow> error + py" where
  "py_max [] = Inl ValueError"
| "py_max (v # vs) = max_from v vs"

text \<open>The loop over \<open>aggregation_functions.items()\<close> for one group.\<close>

fun aggregate_columns :: "(string \<times> string) list \<Rightarrow> (string \<times> py list) list \<Rightarrow> row \<Rightarrow> error + row" where
  "aggregate_columns [] group_data aggregated_row = Inr aggregated_row"
| "aggregate_columns ((column, agg_function) # items) group_data aggregated_row =
     (case map_of group_data column of
        None \<Rightarrow> aggregate_columns items group_data aggregated_row
      | Some values \<Rightarrow>
          if agg_function = ''sum'' then
            (case py_sum values of
               Inl e \<Rightarrow> Inl e
             | Inr values_sum \<Rightarrow> aggregate_columns items group_data (dict_set column values_sum aggregated_row))
          else if agg_function = ''mean'' then
            (if length values > 0 then
               (case py_sum values of
                  Inl e \<Rightarrow> Inl e
                | Inr values_sum \<Rightarrow>
                    (case py_truediv values_sum (length values) of
                       Inl e \<Rightarrow> Inl e
                     | Inr m \<Rightarrow> aggregate_columns items group_data (dict_set column m aggregated_row)))
             else aggregate_columns items group_data (dict_set column PNone aggregated_row))
          else if agg_function = ''max'' then
            (case py_max values of
               Inl e \<Rightarrow> Inl e
             | Inr m \<Rightarrow> aggregate_columns items group_data (dict_set column m aggregated_row))
          else aggregate_columns items group_data aggregated_row)"

text \<open>The second loop \<open>for group_key, group_data in grouped_data.items()\<close>.\<close>

fun aggregate_groups :: "string \<Rightarrow> (string \<times> string) list \<Rightarrow> (py \<times> (string \<times> py list) list) list \<Rightarrow> dataset \<Rightarrow> error + dataset" where
  "aggregate_groups groupby_column aggregation_functions [] aggregated_data = Inr aggregated_data"
| "aggregate_groups groupby_column aggregation_functions ((group_key, group_data) # groups) aggregated_data =
     (case aggregate_columns aggregation_functions group_data [(groupby_column, group_key)] of
        Inl e \<Rightarrow> Inl e
      | Inr aggregated_row \<Rightarrow>
          aggregate_groups groupby_column aggregation_functions groups (aggregated_data @ [aggregated_row]))"

definition dataGroupBy :: "dataset \<Rightarrow> string \<Rightarrow> (string \<times> string) list \<Rightarrow> dataset \<times> (error + dataset)" where
  "dataGroupBy dataset groupby_column aggregation_functions =
     (case collect_rows groupby_column aggregation_functions dataset [] of
        (dataset', Inl e) \<Rightarrow> (dataset', Inl e)
      | (dataset', Inr grouped_data) \<Rightarrow>
          (dataset', aggregate_groups groupby_column aggregation_functions grouped_data []))"

section \<open>The pivoter\<close>

text \<open>
  The loop \<open>for row in dataset\<close>. A new key is first given \<open>{}\<close> and then, like a key that
  is present, the row's value: one assignment in the model.
\<close>

fun pivot_rows :: "string \<Rightarrow> string \<Rightarrow> dataset \<Rightarrow> (py \<times> py) list \<Rightarrow> error + (py \<times> py) list" where
  "pivot_rows pivot_column value_column [] pivoted_data = Inr pivoted_data"
| "pivot_rows pivot_column value_column (row # rows) pivoted_data =
     (case map_of row pivot_column of
        None \<Rightarrow> Inl KeyError
      | Some pivot_value \<Rightarrow>
          if \<not> hashable pivot_value then Inl TypeError
          else (case map_of row value_column of
                  None \<Rightarrow> Inl KeyError
                | Some v \<Rightarrow> pivot_rows pivot_column value_column rows
                             (pdict_set pivot_value v pivoted_data)))"

definition dataPivoting :: "dataset \<Rightarrow> string \<Rightarrow> string \<Rightarrow> error + dataset" where
  "dataPivoting dataset pivot_column value_column =
     (case pivot_rows pivot_column value_column dataset [] of
        Inl e \<Rightarrow> Inl e
      | Inr pivoted_data \<Rightarrow>
          Inr (map (\<lambda>(key, v). [(''pivot_column'', key), (''value_column'', v)]) pivoted_data))"

section \<open>Vocabulary of the specification\<close>







text \<open>
  The cells that a column holds, row by row, on the rows that have the column; the distinct
  values of a list in the order of their first occurrence, two values being the same key when
  Python's \<open>==\<close> identifies them; and the value paired with the last occurrence of a key.
\<close>

fun cells_of :: "string \<Rightarrow> dataset \<Rightarrow> py list" where
  "cells_of column [] = []"
| "cells_of column (row # rows) =
     (case map_of row column of
        None \<Rightarrow> cells_of column rows
      | Some cell \<Rightarrow> cell # cells_of column rows)"

function first_seen :: "py list \<Rightarrow> py list" where
  "first_seen [] = []"
| "first_seen (k # ks) = k # first_seen (filter (\<lambda>k'. \<not> py_eq k' k) ks)"
  by pat_completeness auto
termination
  by (relation "measure length") (auto simp: less_Suc_eq_le)

definition last_value :: "py \<Rightarrow> (py \<times> 'v) list \<Rightarrow> 'v" where
  "last_value k items = snd (last (filter (\<lambda>(k', v). py_eq k' k) items))"

section \<open>Properties of the sampler\<close>




lemma sampling_loop_frame:
  "n \<le> c \<Longrightarrow> take n (fst (sampling_loop k seed c st sd)) = take n st"
  by (induction k arbitrary: seed st sd) (simp_all add: Let_def)






lemma dataSampling_unfold:
  "dataSampling store dataset fraction seed =
     sampling_loop (nat (py_int (of_nat (length (store ! dataset)) * fraction))) seed
       (length store) (store @ [store ! dataset]) []"
  by (simp add: dataSampling_def Let_def)



text \<open>
  Claim C8. The sampler pops from the copy it allocates: after the call, whatever the fraction
  and whether or not the call fails, every list object that existed before the call, the input
  dataset among them, has the same elements in the same order.
\<close>

theorem dataSampling_input_unchanged:
  "take (length store) (fst (dataSampling store dataset fraction seed)) = store \<and>
   (dataset < length store \<longrightarrow>
      fst (dataSampling store dataset fraction seed) ! dataset = store ! dataset)"
proof -
  let ?r = "fst (dataSampling store dataset fraction seed)"
  have t: "take (length store) ?r = store"
    by (simp add: dataSampling_unfold sampling_loop_frame)
  have "dataset < length store \<Longrightarrow> ?r ! dataset = store ! dataset"
  proof -
    assume d: "dataset < length store"
    then have "take (length store) ?r ! dataset = ?r ! dataset" by simp
    then show ?thesis using t by simp
  qed
  then show ?thesis using t by simp
qed




text \<open>
  Two rows, fraction 1: the copy is drained, the dataset is not.
\<close>

theorem dataSampling_input_unchanged_witness:
  "(0::nat) < length [[[(''c'', PInt 1)], [(''c'', PInt 2)]]] \<and>
   fst (dataSampling [[[(''c'', PInt 1)], [(''c'', PInt 2)]]] 0 1 7) ! 0 =
     [[(''c'', PInt 1)], [(''c'', PInt 2)]]"
  using dataSampling_input_unchanged [of "[[[(''c'', PInt 1)], [(''c'', PInt 2)]]]" 0 1 7]
  by simp

section \<open>Properties of the imputer\<close>

























text \<open>
  Claim C1 fails on the code. \<open>continue\<close> ends the pass of the inner loop over the columns,
  not the pass over the row: a row with a missing cell is still appended, without that column.
  Here the first row has a missing \<open>c\<close>; the claim (and the docstring, "remove rows with
  missing values") has it dropped, the code returns it as \<open>{'d': 1}\<close>.
\<close>

theorem dataCleaning_remove_keeps_row:
  "dataCleaning set_iter
     [[(''c'', PNone), (''d'', PInt 1)], [(''c'', PInt 4), (''d'', PInt 2)]] ''remove'' =
   Inr [[(''d'', PInt 1)], [(''c'', PInt 4), (''d'', PInt 2)]]"
  by (simp add: dataCleaning_def impute_def is_missing_def)



section \<open>Dictionaries keyed by Python values\<close>

lemma py_eq_refl [simp]: "py_eq k k"
  by (simp add: py_eq_def)

lemma py_eq_sym: "py_eq a b = py_eq b a"
  by (auto simp: py_eq_def)

lemma py_eq_trans: "py_eq a b \<Longrightarrow> py_eq b c \<Longrightarrow> py_eq a c"
  by (simp add: py_eq_def)

lemma py_eq_left: "py_eq a b \<Longrightarrow> py_eq a c = py_eq b c"
  by (auto simp: py_eq_def)

lemma pdict_get_eq: "py_eq k k' \<Longrightarrow> pdict_get k d = pdict_get k' d"
  by (induction d) (auto simp: py_eq_def)

lemma pdict_get_set:
  "pdict_get k (pdict_set k' v d) = (if py_eq k' k then Some v else pdict_get k d)"
  by (induction d) (auto simp: py_eq_def)

lemma pdict_get_None: "pdict_get k d = None \<longleftrightarrow> (\<forall>k' \<in> set (map fst d). \<not> py_eq k' k)"
  by (induction d) (auto split: if_splits)

lemma keys_pdict_set:
  "map fst (pdict_set k v d) =
     (if pdict_get k d = None then map fst d @ [k] else map fst d)"
  by (induction d) (auto split: if_splits)

lemma first_seen_filter:
  "first_seen (filter (\<lambda>x. \<not> py_eq x k) ks) = filter (\<lambda>x. \<not> py_eq x k) (first_seen ks)"
proof (induction ks rule: first_seen.induct)
  case 1
  then show ?case by simp
next
  case (2 a ks)
  have comm: "filter (\<lambda>x. \<not> py_eq x a) (filter (\<lambda>x. \<not> py_eq x k) ks) =
              filter (\<lambda>x. \<not> py_eq x k) (filter (\<lambda>x. \<not> py_eq x a) ks)"
    by (auto simp: conj_commute)
  show ?case
  proof (cases "py_eq a k")
    case True
    then have same: "(\<lambda>x. \<not> py_eq x k) = (\<lambda>x. \<not> py_eq x a)"
      by (auto simp: py_eq_def)
    have "filter (\<lambda>x. \<not> py_eq x a) (first_seen (filter (\<lambda>x. \<not> py_eq x a) ks)) =
          first_seen (filter (\<lambda>x. \<not> py_eq x a) ks)"
      using "2.IH" [symmetric] by (simp add: same)
    then show ?thesis using True by (simp add: same)
  next
    case False
    have "first_seen (filter (\<lambda>x. \<not> py_eq x k) (a # ks)) =
          a # first_seen (filter (\<lambda>x. \<not> py_eq x a) (filter (\<lambda>x. \<not> py_eq x k) ks))"
      using False by simp
    also have "\<dots> = a # first_seen (filter (\<lambda>x. \<not> py_eq x k) (filter (\<lambda>x. \<not> py_eq x a) ks))"
      by (simp only: comm)
    also have "\<dots> = a # filter (\<lambda>x. \<not> py_eq x k) (first_seen (filter (\<lambda>x. \<not> py_eq x a) ks))"
      by (simp only: "2.IH")
    also have "\<dots> = filter (\<lambda>x. \<not> py_eq x k) (first_seen (a # ks))"
      using False by simp
    finally show ?thesis .
  qed
qed

text \<open>The keys of a dict that grows by assignments are the first-seen keys.\<close>

lemma first_seen_snoc:
  "first_seen (ks @ [k]) =
     (if \<exists>k' \<in> set ks. py_eq k' k then first_seen ks else first_seen ks @ [k])"
proof (induction ks rule: first_seen.induct)
  case 1
  then show ?case by simp
next
  case (2 a ks)
  show ?case
  proof (cases "py_eq k a")
    case True
    then show ?thesis by (auto simp: py_eq_sym)
  next
    case False
    have "(\<exists>k' \<in> set (filter (\<lambda>x. \<not> py_eq x a) ks). py_eq k' k) = (\<exists>k' \<in> set ks. py_eq k' k)"
      using False by (auto simp: py_eq_def)
    then show ?thesis using False "2.IH" by (auto simp: py_eq_sym)
  qed
qed

lemma set_first_seen: "py_norm ` set (first_seen ks) = py_norm ` set ks"
proof (induction ks rule: first_seen.induct)
  case 1
  then show ?case by simp
next
  case (2 k ks)
  have "py_norm ` set (filter (\<lambda>x. \<not> py_eq x k) ks) = py_norm ` set ks - {py_norm k}"
    by (auto simp: py_eq_def)
  then show ?case using "2.IH" by auto
qed

lemma seen_first_seen: "(\<exists>k' \<in> set (first_seen ks). py_eq k' k) = (\<exists>k' \<in> set ks. py_eq k' k)"
proof -
  have "(\<exists>k' \<in> set xs. py_eq k' k) = (py_norm k \<in> py_norm ` set xs)" for xs
    unfolding py_eq_def image_iff by (rule iffI) (erule bexE, rule bexI, simp_all)+
  then show ?thesis by (simp add: set_first_seen)
qed

lemma distinct_first_seen: "distinct (map py_norm (first_seen ks))"
proof (induction ks rule: first_seen.induct)
  case 1
  then show ?case by simp
next
  case (2 k ks)
  have "py_norm k \<notin> py_norm ` set (filter (\<lambda>x. \<not> py_eq x k) ks)"
    by (force simp: py_eq_def image_iff)
  then have "py_norm k \<notin> py_norm ` set (first_seen (filter (\<lambda>x. \<not> py_eq x k) ks))"
    by (simp add: set_first_seen)
  then show ?case using "2.IH" by simp
qed

lemma length_first_seen: "length (first_seen ks) = card (py_norm ` set ks)"
  using distinct_card [OF distinct_first_seen, of ks] set_first_seen [of ks] by simp

lemma pdict_get_distinct:
  "distinct (map py_norm (map fst d)) \<Longrightarrow> (k, v) \<in> set d \<Longrightarrow> pdict_get k d = Some v"
proof (induction d)
  case Nil
  then show ?case by simp
next
  case (Cons a d)
  then show ?case by (cases a) (auto simp: py_eq_def image_iff rev_image_eqI)
qed

lemma pdict_items:
  "distinct (map py_norm (map fst d)) \<Longrightarrow> d = map (\<lambda>k. (k, the (pdict_get k d))) (map fst d)"
proof -
  assume dist: "distinct (map py_norm (map fst d))"
  have "map (\<lambda>k. (k, the (pdict_get k d))) (map fst d) = map (\<lambda>kv. (fst kv, the (pdict_get (fst kv) d))) d"
    by (simp add: comp_def)
  also have "\<dots> = map (\<lambda>kv. kv) d"
  proof (rule map_cong [OF refl])
    fix kv assume "kv \<in> set d"
    then have "pdict_get (fst kv) d = Some (snd kv)"
      using pdict_get_distinct [OF dist, of "fst kv" "snd kv"] by simp
    then show "(fst kv, the (pdict_get (fst kv) d)) = kv" by simp
  qed
  finally show ?thesis by simp
qed

section \<open>Properties of the pivoter\<close>

lemma pivot_rows_cells:
  "pivot_rows p v rows pd = Inr pd' \<Longrightarrow>
     cells_of p rows = map (\<lambda>row. the (map_of row p)) rows \<and>
     cells_of v rows = map (\<lambda>row. the (map_of row v)) rows \<and>
     (\<forall>row \<in> set rows. map_of row p \<noteq> None \<and> map_of row v \<noteq> None)"
  by (induction rows arbitrary: pd) (auto split: option.splits if_splits)

lemma pivot_rows_keys:
  "pivot_rows p v rows pd = Inr pd' \<Longrightarrow> map fst pd = first_seen ks \<Longrightarrow>
     map fst pd' = first_seen (ks @ cells_of p rows)"
proof (induction rows arbitrary: pd ks)
  case Nil
  then show ?case by simp
next
  case (Cons row rows)
  from Cons.prems(1) obtain k x where k: "map_of row p = Some k" and x: "map_of row v = Some x"
    and rest: "pivot_rows p v rows (pdict_set k x pd) = Inr pd'"
    by (auto split: option.splits if_splits)
  have "(pdict_get k pd = None) = (\<not> (\<exists>k' \<in> set ks. py_eq k' k))"
    unfolding pdict_get_None Cons.prems(2) using seen_first_seen [of ks k] by blast
  then have "map fst (pdict_set k x pd) = first_seen (ks @ [k])"
    using Cons.prems(2) by (simp add: keys_pdict_set first_seen_snoc)
  from Cons.IH [OF rest this] show ?case using k by simp
qed

lemma last_value_later:
  "\<exists>kv \<in> set items. py_eq (fst kv) k \<Longrightarrow> last_value k (kv0 # items) = last_value k items"
proof -
  assume "\<exists>kv \<in> set items. py_eq (fst kv) k"
  then have "filter (\<lambda>(k', v). py_eq k' k) items \<noteq> []"
    by (auto simp: filter_empty_conv)
  then show ?thesis by (simp add: last_value_def)
qed

lemma last_value_first:
  "\<not> (\<exists>kv \<in> set items. py_eq (fst kv) k) \<Longrightarrow> py_eq k0 k \<Longrightarrow>
     last_value k ((k0, v0) # items) = v0"
proof -
  assume "\<not> (\<exists>kv \<in> set items. py_eq (fst kv) k)" and k0: "py_eq k0 k"
  then have "filter (\<lambda>(k', v). py_eq k' k) items = []"
    by (auto simp: filter_empty_conv)
  then show ?thesis using k0 by (simp add: last_value_def)
qed

lemma seen_zip:
  "length ks = length vs \<Longrightarrow>
     (\<exists>kv \<in> set (zip ks vs). py_eq (fst kv) k) = (\<exists>k' \<in> set ks. py_eq k' k)"
proof -
  assume len: "length ks = length vs"
  have "(\<exists>kv \<in> set (zip ks vs). py_eq (fst kv) k) = (\<exists>k' \<in> set (map fst (zip ks vs)). py_eq k' k)"
    by (simp only: set_map bex_simps(7))
  then show ?thesis using len by simp
qed

lemma pivot_rows_get:
  "pivot_rows p v rows pd = Inr pd' \<Longrightarrow>
     pdict_get k pd' =
       (if \<exists>k' \<in> set (cells_of p rows). py_eq k' k
        then Some (last_value k (zip (cells_of p rows) (cells_of v rows)))
        else pdict_get k pd)"
proof (induction rows arbitrary: pd)
  case Nil
  then show ?case by simp
next
  case (Cons row rows)
  from Cons.prems obtain k0 x where k0: "map_of row p = Some k0" and x: "map_of row v = Some x"
    and rest: "pivot_rows p v rows (pdict_set k0 x pd) = Inr pd'"
    by (auto split: option.splits if_splits)
  let ?ks = "cells_of p rows" and ?vs = "cells_of v rows"
  have len: "length ?ks = length ?vs"
    using pivot_rows_cells [OF rest] by (metis length_map)
  note ih = Cons.IH [OF rest]
  show ?case
  proof (cases "\<exists>k' \<in> set ?ks. py_eq k' k")
    case True
    then have "\<exists>kv \<in> set (zip ?ks ?vs). py_eq (fst kv) k"
      by (simp add: seen_zip [OF len])
    from last_value_later [OF this] show ?thesis
      using True ih k0 x by auto
  next
    case False
    then have no: "\<not> (\<exists>kv \<in> set (zip ?ks ?vs). py_eq (fst kv) k)"
      by (simp add: seen_zip [OF len])
    show ?thesis
    proof (cases "py_eq k0 k")
      case True
      from last_value_first [OF no True] show ?thesis
        using True False ih k0 x by (simp add: pdict_get_set)
    next
      case no0: False
      then show ?thesis using False ih k0 x by (simp add: pdict_get_set)
    qed
  qed
qed

lemma pivot_rows_returns:
  "\<forall>row \<in> set rows. \<exists>k. map_of row p = Some k \<and> hashable k \<and> map_of row v \<noteq> None \<Longrightarrow>
     \<exists>pd'. pivot_rows p v rows pd = Inr pd'"
  by (induction rows arbitrary: pd) auto

lemma pivot_rows_items:
  assumes "pivot_rows p v rows [] = Inr pd'"
  shows "pd' = map (\<lambda>k. (k, last_value k (zip (cells_of p rows) (cells_of v rows))))
               (first_seen (cells_of p rows))"
proof -
  let ?ks = "cells_of p rows"
  have keys: "map fst pd' = first_seen ?ks"
    using pivot_rows_keys [OF assms, of "[]"] by simp
  then have "distinct (map py_norm (map fst pd'))"
    by (simp only: distinct_first_seen)
  from pdict_items [OF this]
  have "pd' = map (\<lambda>k. (k, the (pdict_get k pd'))) (first_seen ?ks)"
    by (simp only: keys)
  also have "\<dots> = map (\<lambda>k. (k, last_value k (zip ?ks (cells_of v rows)))) (first_seen ?ks)"
  proof (rule map_cong [OF refl])
    fix k assume "k \<in> set (first_seen ?ks)"
    then have "\<exists>k' \<in> set (first_seen ?ks). py_eq k' k" by (auto intro: bexI [of _ k])
    then have "\<exists>k' \<in> set ?ks. py_eq k' k" by (simp add: seen_first_seen)
    then show "(k, the (pdict_get k pd')) = (k, last_value k (zip ?ks (cells_of v rows)))"
      using pivot_rows_get [OF assms, of k] by simp
  qed
  finally show ?thesis .
qed

text \<open>
C4. A successful \<open>dataPivoting(dataset, p, v)\<close> has read \<open>p\<close> and \<open>v\<close> on every row and
  returns one row per distinct value of the pivot column, in the order in which these values
  first occur (so their number is the number of distinct pivot values); the row of a pivot
  value carries the value of the last input row with that pivot value, and its two fields are
  named by the literal strings \<open>pivot_column\<close> and \<open>value_column\<close>. The call succeeds whenever
  every row holds a hashable pivot value and a value.
\<close>

theorem dataPivoting_last_write_wins:
  "(\<forall>out. dataPivoting dataset pivot_column value_column = Inr out \<longrightarrow>
      (\<forall>row \<in> set dataset. map_of row pivot_column \<noteq> None \<and> map_of row value_column \<noteq> None) \<and>
      out = map (\<lambda>key. [(''pivot_column'', key),
                          (''value_column'', last_value key (zip (cells_of pivot_column dataset)
                                                                 (cells_of value_column dataset)))])
                (first_seen (cells_of pivot_column dataset)) \<and>
      length out = card (py_norm ` set (cells_of pivot_column dataset))) \<and>
   ((\<forall>row \<in> set dataset. \<exists>key. map_of row pivot_column = Some key \<and> hashable key \<and>
                                  map_of row value_column \<noteq> None) \<longrightarrow>
      (\<exists>out. dataPivoting dataset pivot_column value_column = Inr out))"
proof (intro conjI allI impI)
  fix out
  assume ok: "dataPivoting dataset pivot_column value_column = Inr out"
  then obtain pd' where pd: "pivot_rows pivot_column value_column dataset [] = Inr pd'"
    and out: "out = map (\<lambda>(key, v). [(''pivot_column'', key), (''value_column'', v)]) pd'"
    by (auto simp: dataPivoting_def split: sum.splits)
  show "\<forall>row \<in> set dataset. map_of row pivot_column \<noteq> None \<and> map_of row value_column \<noteq> None"
    using pivot_rows_cells [OF pd] by simp
  show shape: "out = map (\<lambda>key. [(''pivot_column'', key),
                          (''value_column'', last_value key (zip (cells_of pivot_column dataset)
                                                                 (cells_of value_column dataset)))])
                (first_seen (cells_of pivot_column dataset))"
    unfolding out by (subst pivot_rows_items [OF pd]) (simp add: comp_def)
  show "length out = card (py_norm ` set (cells_of pivot_column dataset))"
    by (subst shape) (simp add: length_first_seen)
next
  assume "\<forall>row \<in> set dataset. \<exists>key. map_of row pivot_column = Some key \<and> hashable key \<and>
                                  map_of row value_column \<noteq> None"
  from pivot_rows_returns [OF this, of "[]"]
  show "\<exists>out. dataPivoting dataset pivot_column value_column = Inr out"
    by (auto simp: dataPivoting_def)
qed

theorem dataPivoting_last_write_wins_witness:
  "dataPivoting [[(''p'', PInt 1), (''v'', PInt 10)], [(''p'', PInt 2), (''v'', PInt 20)],
                 [(''p'', PFloat 1), (''v'', PInt 30)]] ''p'' ''v'' =
     Inr [[(''pivot_column'', PInt 1), (''value_column'', PInt 30)],
          [(''pivot_column'', PInt 2), (''value_column'', PInt 20)]] \<and>
   last_value (PInt 1) (zip [PInt 1, PInt 2, PFloat 1] [PInt 10, PInt 20, PInt 30]) = PInt 30 \<and>
   first_seen [PInt 1, PInt 2, PFloat 1] = [PInt 1, PInt 2] \<and>
   card (py_norm ` {PInt 1, PInt 2, PFloat 1}) = 2"
  using dataPivoting_last_write_wins
    [of "[[(''p'', PInt 1), (''v'', PInt 10)], [(''p'', PInt 2), (''v'', PInt 20)],
          [(''p'', PFloat 1), (''v'', PInt 30)]]" "''p''" "''v''"]
  by (simp add: dataPivoting_def py_eq_def last_value_def)

end
